theory Spec2Isabelle
  imports Main "HOL-Library.Word"
begin

section \<open>Memory: allocations with a use count\<close>

text \<open>
  \<open>uint8_t\<close> is an 8-bit word and \<open>size_t\<close> a 64-bit word (an LP64 platform); \<open>+\<close> on
  them wraps around, as unsigned arithmetic does in C++.

  A \<open>std::shared_ptr<uint8_t[]>\<close> is modelled by the identity of the allocation it owns,
  or \<open>None\<close> when it is null. The allocation carries its bytes and the use count of the
  control block. A raw \<open>uint8_t*\<close> to the base of an allocation is modelled the same way.
\<close>

type_synonym u8 = "8 word"
type_synonym size_t = "64 word"
type_synonym pointer = "nat option"

record alloc =
  bytes :: "u8 list"
  use_count :: nat

type_synonym heap = "nat \<Rightarrow> alloc option"

text \<open>
  \<open>OutOfRange\<close> is \<open>std::out_of_range\<close>. \<open>Undefined\<close> stands for an access that C++ gives
  no meaning: reading or writing through a null pointer, outside the allocation, or
  after the allocation was released.
\<close>

datatype error = OutOfRange | Undefined

definition load :: "heap \<Rightarrow> pointer \<Rightarrow> nat \<Rightarrow> u8 option" where
  "load h p k =
     (case p of
        None \<Rightarrow> None
      | Some a \<Rightarrow>
          (case h a of
             None \<Rightarrow> None
           | Some al \<Rightarrow> if k < length (bytes al) then Some (bytes al ! k) else None))"

definition store :: "heap \<Rightarrow> pointer \<Rightarrow> nat \<Rightarrow> u8 \<Rightarrow> heap option" where
  "store h p k v =
     (case p of
        None \<Rightarrow> None
      | Some a \<Rightarrow>
          (case h a of
             None \<Rightarrow> None
           | Some al \<Rightarrow>
               if k < length (bytes al)
               then Some (h(a \<mapsto> al\<lparr>bytes := (bytes al)[k := v]\<rparr>))
               else None))"

text \<open>
  Copying a \<open>shared_ptr\<close> adds one to the use count; destroying one takes one away and
  deletes the array when the last owner goes.
\<close>

definition acquire :: "heap \<Rightarrow> pointer \<Rightarrow> heap" where
  "acquire h p =
     (case p of
        None \<Rightarrow> h
      | Some a \<Rightarrow>
          (case h a of
             None \<Rightarrow> h
           | Some al \<Rightarrow> h(a \<mapsto> al\<lparr>use_count := Suc (use_count al)\<rparr>)))"

definition release :: "heap \<Rightarrow> pointer \<Rightarrow> heap" where
  "release h p =
     (case p of
        None \<Rightarrow> h
      | Some a \<Rightarrow>
          (case h a of
             None \<Rightarrow> h
           | Some al \<Rightarrow>
               if use_count al \<le> 1 then h(a := None)
               else h(a \<mapsto> al\<lparr>use_count := use_count al - 1\<rparr>)))"

section \<open>The buffer value\<close>

text \<open>
  The members of \<open>xu::shared_buf\<close>. The program state holds the heap and every
  \<open>shared_buf\<close> object by its address, so that two names for one object (a buffer
  assigned to itself) are the same entry.
\<close>

record shared_buf =
  ptr :: pointer
  sz :: size_t

record state =
  heap :: heap
  objs :: "nat \<Rightarrow> shared_buf"

definition set_ptr :: "state \<Rightarrow> nat \<Rightarrow> pointer \<Rightarrow> state" where
  "set_ptr st this p = st\<lparr>objs := (objs st)(this := (objs st this)\<lparr>ptr := p\<rparr>)\<rparr>"

definition set_sz :: "state \<Rightarrow> nat \<Rightarrow> size_t \<Rightarrow> state" where
  "set_sz st this n = st\<lparr>objs := (objs st)(this := (objs st this)\<lparr>sz := n\<rparr>)\<rparr>"

text \<open>
  The operations of \<open>std::shared_ptr\<close> on the member \<open>ptr\<close> of the objects at \<open>this\<close> and
  \<open>other\<close>, as the C++ standard defines them:
  \<^item> copy construction \<open>ptr(other.ptr)\<close> shares ownership;
  \<^item> move construction \<open>ptr(std::move(other.ptr))\<close> takes the pointer and leaves
    \<open>other.ptr\<close> null;
  \<^item> copy assignment \<open>ptr = other.ptr\<close> is \<open>shared_ptr(other.ptr).swap(ptr)\<close>: a temporary
    copy is made, exchanged with \<open>ptr\<close>, and destroyed holding the old value;
  \<^item> move assignment \<open>ptr = std::move(other.ptr)\<close> is
    \<open>shared_ptr(std::move(other.ptr)).swap(ptr)\<close>: the temporary takes the pointer of
    \<open>other.ptr\<close>, which becomes null, is exchanged with \<open>ptr\<close>, and destroyed holding what
    \<open>ptr\<close> held at the exchange.
\<close>

definition sp_copy_construct :: "state \<Rightarrow> nat \<Rightarrow> nat \<Rightarrow> state" where
  "sp_copy_construct st this other =
     (let r = ptr (objs st other)
      in (set_ptr st this r)\<lparr>heap := acquire (heap st) r\<rparr>)"

definition sp_move_construct :: "state \<Rightarrow> nat \<Rightarrow> nat \<Rightarrow> state" where
  "sp_move_construct st this other =
     (let r = ptr (objs st other);
          st1 = set_ptr st other None
      in set_ptr st1 this r)"

definition sp_copy_assign :: "state \<Rightarrow> nat \<Rightarrow> nat \<Rightarrow> state" where
  "sp_copy_assign st this other =
     (let tmp = ptr (objs st other);
          st1 = st\<lparr>heap := acquire (heap st) tmp\<rparr>;
          old = ptr (objs st1 this);
          st2 = set_ptr st1 this tmp
      in st2\<lparr>heap := release (heap st2) old\<rparr>)"

definition sp_move_assign :: "state \<Rightarrow> nat \<Rightarrow> nat \<Rightarrow> state" where
  "sp_move_assign st this other =
     (let tmp = ptr (objs st other);
          st1 = set_ptr st other None;
          old = ptr (objs st1 this);
          st2 = set_ptr st1 this tmp
      in st2\<lparr>heap := release (heap st2) old\<rparr>)"

text \<open>
  \<open>shared_buf(size_t sz_)\<close>: a new array of \<open>n = sz_\<close> bytes at the unused address \<open>a\<close>. Its
  contents are indeterminate; \<open>init\<close> stands for whatever the memory holds. Allocation
  is taken to succeed.
\<close>

definition construct :: "state \<Rightarrow> nat \<Rightarrow> nat \<Rightarrow> (nat \<Rightarrow> u8) \<Rightarrow> size_t \<Rightarrow> state" where
  "construct st this a init n =
     st\<lparr>heap := (heap st)(a \<mapsto> \<lparr>bytes = map init [0..<unat n], use_count = 1\<rparr>),
        objs := (objs st)(this := \<lparr>ptr = Some a, sz = n\<rparr>)\<rparr>"

text \<open>Copy constructor: both member initialisers, then both statements of the body.\<close>

definition copy_construct :: "state \<Rightarrow> nat \<Rightarrow> nat \<Rightarrow> state" where
  "copy_construct st this other =
     (let st1 = sp_copy_construct st this other;
          st2 = set_sz st1 this (sz (objs st1 other));
          st3 = sp_copy_assign st2 this other
      in set_sz st3 this (sz (objs st3 other)))"

text \<open>Copy assignment.\<close>

definition copy_assign :: "state \<Rightarrow> nat \<Rightarrow> nat \<Rightarrow> state" where
  "copy_assign st this other =
     (let st1 = sp_copy_assign st this other
      in set_sz st1 this (sz (objs st1 other)))"

text \<open>Move constructor.\<close>

definition move_construct :: "state \<Rightarrow> nat \<Rightarrow> nat \<Rightarrow> state" where
  "move_construct st this other =
     (let st1 = sp_move_construct st this other;
          st2 = set_sz st1 this (sz (objs st1 other))
      in set_sz st2 other 0)"

text \<open>Move assignment.\<close>

definition move_assign :: "state \<Rightarrow> nat \<Rightarrow> nat \<Rightarrow> state" where
  "move_assign st this other =
     (let st1 = sp_move_assign st this other;
          st2 = set_sz st1 this (sz (objs st1 other))
      in set_sz st2 other 0)"

text \<open>
  \<open>uint8_t& operator[](size_t i)\<close> returns a reference: the allocation and the offset
  of the byte. \<open>uint8_t operator[](size_t i) const\<close> returns the byte itself.
\<close>

definition index_ref :: "shared_buf \<Rightarrow> size_t \<Rightarrow> error + (pointer \<times> nat)" where
  "index_ref b i = (if i < sz b then Inr (ptr b, unat i) else Inl OutOfRange)"

definition index_const :: "heap \<Rightarrow> shared_buf \<Rightarrow> size_t \<Rightarrow> error + u8" where
  "index_const h b i =
     (if i < sz b
      then (case load h (ptr b) (unat i) of None \<Rightarrow> Inl Undefined | Some v \<Rightarrow> Inr v)
      else Inl OutOfRange)"

text \<open>Reading and writing through the reference that the mutable \<open>operator[]\<close> returns.\<close>

definition read_index :: "state \<Rightarrow> nat \<Rightarrow> size_t \<Rightarrow> error + u8" where
  "read_index st b i =
     (case index_ref (objs st b) i of
        Inl e \<Rightarrow> Inl e
      | Inr (p, k) \<Rightarrow>
          (case load (heap st) p k of None \<Rightarrow> Inl Undefined | Some v \<Rightarrow> Inr v))"

definition write_index :: "state \<Rightarrow> nat \<Rightarrow> size_t \<Rightarrow> u8 \<Rightarrow> error + state" where
  "write_index st b i v =
     (case index_ref (objs st b) i of
        Inl e \<Rightarrow> Inl e
      | Inr (p, k) \<Rightarrow>
          (case store (heap st) p k v of
             None \<Rightarrow> Inl Undefined
           | Some h \<Rightarrow> Inr (st\<lparr>heap := h\<rparr>)))"

definition size_buf :: "shared_buf \<Rightarrow> size_t" where
  "size_buf b = sz b"

section \<open>Cursors\<close>

text \<open>
  The members \<open>base_ptr\<close>, \<open>sz\<close> and \<open>i\<close> of \<open>iterator_<Val_T>\<close>, here \<open>base_ptr\<close>, \<open>it_sz\<close>
  and \<open>it_i\<close>. \<open>iterator\<close> and \<open>const_iterator\<close> differ in the type of the reference they
  hand out only; their data and their operations are the same.
\<close>

record iterator_ =
  base_ptr :: pointer
  it_sz :: size_t
  it_i :: size_t

definition iterator_ctor :: "pointer \<Rightarrow> size_t \<Rightarrow> size_t \<Rightarrow> iterator_" where
  "iterator_ctor bp n k =
     \<lparr>base_ptr = bp, it_sz = n, it_i = (if k > n then n else k)\<rparr>"

definition iterator_copy :: "iterator_ \<Rightarrow> iterator_" where
  "iterator_copy other =
     \<lparr>base_ptr = base_ptr other, it_sz = it_sz other, it_i = it_i other\<rparr>"

definition iterator_assign :: "iterator_ \<Rightarrow> iterator_ \<Rightarrow> iterator_" where
  "iterator_assign this other =
     this\<lparr>base_ptr := base_ptr other, it_sz := it_sz other, it_i := it_i other\<rparr>"

text \<open>\<open>operator++()\<close>: the cursor after the call.\<close>

definition pre_inc :: "iterator_ \<Rightarrow> iterator_" where
  "pre_inc it = (if it_i it < it_sz it then it\<lparr>it_i := it_i it + 1\<rparr> else it)"

text \<open>\<open>operator++(int)\<close>: the value returned and the cursor after the call.\<close>

definition post_inc :: "iterator_ \<Rightarrow> iterator_ \<times> iterator_" where
  "post_inc it = (let res = iterator_copy it in (res, pre_inc it))"

text \<open>\<open>operator+=(size_t n)\<close>; \<open>next\<close> is computed modulo \<open>2 ^ 64\<close>.\<close>

definition plus_assign :: "iterator_ \<Rightarrow> size_t \<Rightarrow> iterator_" where
  "plus_assign it n =
     (let next = it_i it + n
      in if next < it_i it \<or> next > it_sz it
         then it\<lparr>it_i := it_sz it\<rparr>
         else it\<lparr>it_i := next\<rparr>)"

definition it_eq :: "iterator_ \<Rightarrow> iterator_ \<Rightarrow> bool" where
  "it_eq this other \<longleftrightarrow>
     base_ptr this = base_ptr other \<and> it_sz this = it_sz other \<and> it_i this = it_i other"

definition it_neq :: "iterator_ \<Rightarrow> iterator_ \<Rightarrow> bool" where
  "it_neq this other \<longleftrightarrow>
     base_ptr this \<noteq> base_ptr other \<or> it_sz this \<noteq> it_sz other \<or> it_i this \<noteq> it_i other"

text \<open>\<open>operator*\<close> and \<open>ptr()\<close>: the reference, or the pointer, to the byte at the cursor.\<close>

definition deref :: "iterator_ \<Rightarrow> error + (pointer \<times> nat)" where
  "deref it =
     (if it_i it < it_sz it then Inr (base_ptr it, unat (it_i it)) else Inl OutOfRange)"

definition it_ptr :: "iterator_ \<Rightarrow> error + (pointer \<times> nat)" where
  "it_ptr it =
     (if it_i it < it_sz it then Inr (base_ptr it, unat (it_i it)) else Inl OutOfRange)"

text \<open>\<open>operator-\<close>: the distance in bytes.\<close>

definition distance :: "iterator_ \<Rightarrow> iterator_ \<Rightarrow> size_t" where
  "distance this other = (if it_i other > it_i this then 0 else it_i this - it_i other)"

text \<open>The conversion \<open>operator iterator_<const Val_T>()\<close>.\<close>

definition to_const :: "iterator_ \<Rightarrow> iterator_" where
  "to_const it = iterator_ctor (base_ptr it) (it_sz it) (it_i it)"

text \<open>
  \<open>begin()\<close> and \<open>end()\<close>, in both the mutable and the \<open>const\<close> form. Both evaluate
  \<open>&ptr[0]\<close>. \<open>operator[]\<close> of a \<open>shared_ptr\<close> requires a pointer that is not null, so on a
  null \<open>ptr\<close> the call has no defined result; otherwise \<open>&ptr[0]\<close> is the address held.
\<close>

definition buf_begin :: "shared_buf \<Rightarrow> error + iterator_" where
  "buf_begin b =
     (case ptr b of
        None \<Rightarrow> Inl Undefined
      | Some a \<Rightarrow> Inr (iterator_ctor (Some a) (sz b) 0))"

definition buf_end :: "shared_buf \<Rightarrow> error + iterator_" where
  "buf_end b =
     (case ptr b of
        None \<Rightarrow> Inl Undefined
      | Some a \<Rightarrow> Inr (iterator_ctor (Some a) (sz b) (sz b)))"

text \<open>
  The range-based loop \<open>for (auto b : buf)\<close>, which is
  \<open>for (it = begin(); it != end(); ++it) { b = *it; ... }\<close>: the bytes it reads, in order.
  \<open>None\<close> is a loop that does not end.
\<close>

partial_function (option) range_loop ::
  "heap \<Rightarrow> iterator_ \<Rightarrow> iterator_ \<Rightarrow> u8 list \<Rightarrow> (error + u8 list) option" where
  "range_loop h it e acc =
     (if it_neq it e
      then (case deref it of
              Inl x \<Rightarrow> Some (Inl x)
            | Inr (p, k) \<Rightarrow>
                (case load h p k of
                   None \<Rightarrow> Some (Inl Undefined)
                 | Some v \<Rightarrow> range_loop h (pre_inc it) e (acc @ [v])))
      else Some (Inr acc))"

definition range_for :: "heap \<Rightarrow> shared_buf \<Rightarrow> (error + u8 list) option" where
  "range_for h b =
     (case buf_begin b of
        Inl x \<Rightarrow> Some (Inl x)
      | Inr it \<Rightarrow>
          (case buf_end b of
             Inl x \<Rightarrow> Some (Inl x)
           | Inr e \<Rightarrow> range_loop h it e []))"

text \<open>
  Two other revisions of the header, both under \<open>src/unnamed\<close>, differ from
  \<open>shared_buf.hpp\<close> in the members below. In one, where the cursor is the class \<open>iterator\<close>
  and its size is the member \<open>size\<close>, the constructor of the cursor has an empty body.
\<close>

definition iterator_ctor_rev1 :: "pointer \<Rightarrow> size_t \<Rightarrow> size_t \<Rightarrow> iterator_" where
  "iterator_ctor_rev1 bp n k = \<lparr>base_ptr = bp, it_sz = n, it_i = k\<rparr>"

text \<open>
  In the other, \<open>uint8_t operator[](size_t i) const\<close> is \<open>return operator[](i);\<close>. The
  object is \<open>const\<close> there, so the call is to the \<open>const\<close> overload: the function calls
  itself with the same argument. \<open>None\<close> is a call that does not return.
\<close>

partial_function (option) index_const_rev2 ::
  "heap \<Rightarrow> shared_buf \<Rightarrow> size_t \<Rightarrow> (error + u8) option" where
  "index_const_rev2 h b i = index_const_rev2 h b i"

section \<open>The output stream\<close>

text \<open>
  What \<open>print\<close> uses of a \<open>std::ostream\<close>: the format flags, the precision, the field
  width and the fill character of the stream, and the characters written so far. The
  stream is in the classic locale and never fails. The operations are those of the C++
  standard library.
\<close>

datatype fmtflag =
  Boolalpha | Dec | Fixed | Hex | Internal | Left | Oct | Right | Scientific |
  Showbase | Showpoint | Showpos | Skipws | Unitbuf | Uppercase

record ostream =
  flags :: "fmtflag set"
  precision :: int
  width :: int
  fill :: char
  out :: string

text \<open>\<open>std::resetiosflags(mask)\<close>, \<open>std::hex\<close> and \<open>stream.flags(f)\<close>.\<close>

definition resetiosflags :: "ostream \<Rightarrow> fmtflag set \<Rightarrow> ostream" where
  "resetiosflags s m = s\<lparr>flags := flags s - m\<rparr>"

definition hex_manip :: "ostream \<Rightarrow> ostream" where
  "hex_manip s = s\<lparr>flags := (flags s - {Dec, Oct, Hex}) \<union> {Hex}\<rparr>"

definition set_flags :: "ostream \<Rightarrow> fmtflag set \<Rightarrow> ostream" where
  "set_flags s f = s\<lparr>flags := f\<rparr>"

text \<open>
  Formatted output pads the text to the field width with the fill character, after the
  text when the adjustment is \<open>left\<close>, before it otherwise, and sets the width to 0.
\<close>

definition adjust_left :: "ostream \<Rightarrow> bool" where
  "adjust_left s \<longleftrightarrow> Left \<in> flags s \<and> Right \<notin> flags s \<and> Internal \<notin> flags s"

definition adjust_internal :: "ostream \<Rightarrow> bool" where
  "adjust_internal s \<longleftrightarrow> Internal \<in> flags s \<and> Left \<notin> flags s \<and> Right \<notin> flags s"

definition padding :: "ostream \<Rightarrow> nat \<Rightarrow> string" where
  "padding s len = replicate (nat (width s - int len)) (fill s)"

definition put_char :: "ostream \<Rightarrow> char \<Rightarrow> ostream" where
  "put_char s c =
     s\<lparr>out := out s @ (if adjust_left s then [c] @ padding s 1 else padding s 1 @ [c]),
       width := 0\<rparr>"

definition digit_char :: "bool \<Rightarrow> nat \<Rightarrow> char" where
  "digit_char upper d =
     (if upper then ''0123456789ABCDEF'' ! d else ''0123456789abcdef'' ! d)"

function digits :: "nat \<Rightarrow> bool \<Rightarrow> nat \<Rightarrow> string" where
  "digits base upper n =
     (if n < base \<and> 2 \<le> base \<and> base \<le> 16
      then [digit_char upper n]
      else if 2 \<le> base \<and> base \<le> 16
      then digits base upper (n div base) @ [digit_char upper (n mod base)]
      else [])"
  by pat_completeness auto
termination
  by (relation "measure (\<lambda>(base, upper, n). n)") auto

declare digits.simps [simp del]

text \<open>
  \<open>stream << n\<close> for an \<open>int\<close>: in base 16 or 8 the value is written as the unsigned
  32-bit number it converts to, with the prefix of \<open>showbase\<close>; in base 10 with its sign.
\<close>

definition put_int :: "ostream \<Rightarrow> int \<Rightarrow> ostream" where
  "put_int s n =
     (let f = flags s;
          is_hex = (Hex \<in> f \<and> Oct \<notin> f \<and> Dec \<notin> f);
          is_oct = (Oct \<in> f \<and> Hex \<notin> f \<and> Dec \<notin> f);
          u = nat (n mod 2 ^ 32);
          pre = (if is_hex
                 then (if Showbase \<in> f \<and> u \<noteq> 0
                       then (if Uppercase \<in> f then ''0X'' else ''0x'') else [])
                 else if is_oct then []
                 else if n < 0 then ''-''
                 else if Showpos \<in> f then ''+'' else []);
          body = (if is_hex then digits 16 (Uppercase \<in> f) u
                  else if is_oct
                  then (if Showbase \<in> f \<and> u \<noteq> 0 then ''0'' else []) @ digits 8 False u
                  else digits 10 False (nat \<bar>n\<bar>));
          pad = padding s (length pre + length body)
      in s\<lparr>out := out s @
                (if adjust_left s then pre @ body @ pad
                 else if adjust_internal s then pre @ pad @ body
                 else pad @ pre @ body),
           width := 0\<rparr>)"

section \<open>Printing\<close>

text \<open>The loop of \<open>print\<close>, from the index \<open>i\<close> on.\<close>

function print_loop :: "heap \<Rightarrow> shared_buf \<Rightarrow> size_t \<Rightarrow> ostream \<Rightarrow> error + ostream" where
  "print_loop h b i s =
     (if i < sz b
      then (let s1 = (if i \<noteq> 0 then put_char s CHR '','' else s)
            in case load h (ptr b) (unat i) of
                 None \<Rightarrow> Inl Undefined
               | Some v \<Rightarrow> print_loop h b (i + 1) (put_char (put_int s1 (uint v)) CHR ''h''))
      else Inr s)"
  by pat_completeness auto
termination
proof (relation "measure (\<lambda>(h, b, i, s). unat (sz b) - unat i)")
  show "wf (measure (\<lambda>(h, b, i, s). unat (sz b) - unat i))"
    by simp
next
  fix h :: heap and b :: shared_buf and i :: size_t and s x2 :: ostream and v :: u8
  assume lt: "i < sz b"
  then have less: "unat i < unat (sz b)"
    by (simp add: word_less_nat_alt)
  have "unat (sz b) < 2 ^ 64"
    using unsigned_less [of "sz b"] by simp
  with less have "unat i + 1 < 2 ^ 64"
    by linarith
  then have "unat (i + 1) = unat i + 1"
    by (simp add: unat_word_ariths)
  with less show "((h, b, i + 1, put_char (put_int x2 (uint v)) CHR ''h''), h, b, i, s)
      \<in> measure (\<lambda>(h, b, i, s). unat (sz b) - unat i)"
    by simp
qed

declare print_loop.simps [simp del]

definition print :: "heap \<Rightarrow> shared_buf \<Rightarrow> ostream \<Rightarrow> error + ostream" where
  "print h b stream =
     (let orig_stream_flags = flags stream;
          s1 = resetiosflags stream orig_stream_flags;
          s2 = hex_manip (put_char s1 CHR ''['')
      in case print_loop h b 0 s2 of
           Inl e \<Rightarrow> Inl e
         | Inr s3 \<Rightarrow> Inr (set_flags (put_char s3 CHR '']'') orig_stream_flags))"

section \<open>Buffers in a state\<close>

text \<open>
  A buffer is valid in a heap when its pointer is null and its size 0, or its pointer
  owns a live allocation of at least \<open>sz\<close> bytes. Its contents are the first \<open>sz\<close>
  bytes of the allocation.
\<close>

definition valid :: "heap \<Rightarrow> shared_buf \<Rightarrow> bool" where
  "valid h b =
     (case ptr b of
        None \<Rightarrow> sz b = 0
      | Some a \<Rightarrow>
          (case h a of
             None \<Rightarrow> False
           | Some al \<Rightarrow> unat (sz b) \<le> length (bytes al) \<and> 0 < use_count al))"

definition contents :: "heap \<Rightarrow> shared_buf \<Rightarrow> u8 list" where
  "contents h b =
     (case ptr b of
        None \<Rightarrow> []
      | Some a \<Rightarrow> (case h a of None \<Rightarrow> [] | Some al \<Rightarrow> take (unat (sz b)) (bytes al)))"

text \<open>
  The use count of an allocation covers the objects \<open>vs\<close> when it is at least the number
  of them that own the allocation.
\<close>

definition owners :: "state \<Rightarrow> nat list \<Rightarrow> nat \<Rightarrow> nat" where
  "owners st vs a = length (filter (\<lambda>w. ptr (objs st w) = Some a) vs)"

definition counted :: "state \<Rightarrow> nat list \<Rightarrow> bool" where
  "counted st vs =
     list_all (\<lambda>v. case ptr (objs st v) of
                     None \<Rightarrow> True
                   | Some a \<Rightarrow>
                       (case heap st a of
                          None \<Rightarrow> False
                        | Some al \<Rightarrow> owners st vs a \<le> use_count al)) vs"

text \<open>
  \<open>write_seen st w r i v\<close>: the assignment \<open>w[i] = v\<close> succeeds, and after it both forms of
  \<open>r[i]\<close> yield \<open>v\<close>.
\<close>

definition write_seen :: "state \<Rightarrow> nat \<Rightarrow> nat \<Rightarrow> size_t \<Rightarrow> u8 \<Rightarrow> bool" where
  "write_seen st w r i v =
     (case write_index st w i v of
        Inl e \<Rightarrow> False
      | Inr st' \<Rightarrow>
          read_index st' r i = Inr v \<and> index_const (heap st') (objs st' r) i = Inr v)"

text \<open>
  \<open>copied st st' b2 b1 i v\<close>: what holds in the state \<open>st'\<close> after \<open>b2\<close> was made a copy of \<open>b1\<close>
  in \<open>st\<close>. \<open>b1\<close> is unchanged; \<open>b2\<close> holds the pointer and the size of \<open>b1\<close>; no allocation
  was made; the contents are those of \<open>b1\<close>; a write through either buffer is read through
  the other.
\<close>

definition copied :: "state \<Rightarrow> state \<Rightarrow> nat \<Rightarrow> nat \<Rightarrow> size_t \<Rightarrow> u8 \<Rightarrow> bool" where
  "copied st st' b2 b1 i v \<longleftrightarrow>
     objs st' b1 = objs st b1
     \<and> ptr (objs st' b2) = ptr (objs st b1)
     \<and> sz (objs st' b2) = sz (objs st b1)
     \<and> (\<forall>x. heap st' x \<noteq> None \<longrightarrow> heap st x \<noteq> None)
     \<and> contents (heap st') (objs st' b2) = contents (heap st) (objs st b1)
     \<and> write_seen st' b2 b1 i v
     \<and> write_seen st' b1 b2 i v"

text \<open>
  \<open>moved st st' b2 b1 s\<close>: what holds in the state \<open>st'\<close> after \<open>b1\<close> was moved into \<open>b2\<close> in
  \<open>st\<close>. \<open>b1\<close> has size 0 and a null pointer; every index into it fails with
  \<open>OutOfRange\<close>; printed to a stream \<open>s\<close> it gives \<open>[]\<close>, after \<open>width - 1\<close> fill characters when
  the field width of \<open>s\<close> is above 1. \<open>b2\<close> has the size that \<open>b1\<close> had, is valid, and has
  the contents that \<open>b1\<close> had, byte for byte.
\<close>

definition moved :: "state \<Rightarrow> state \<Rightarrow> nat \<Rightarrow> nat \<Rightarrow> ostream \<Rightarrow> bool" where
  "moved st st' b2 b1 s \<longleftrightarrow>
     size_buf (objs st' b1) = 0
     \<and> ptr (objs st' b1) = None
     \<and> (\<forall>i. index_ref (objs st' b1) i = Inl OutOfRange
            \<and> index_const (heap st') (objs st' b1) i = Inl OutOfRange)
     \<and> print (heap st') (objs st' b1) s =
          Inr (s\<lparr>width := 0, out := out s @ replicate (nat (width s - 1)) (fill s) @ ''[]''\<rparr>)
     \<and> size_buf (objs st' b2) = size_buf (objs st b1)
     \<and> valid (heap st') (objs st' b2)
     \<and> contents (heap st') (objs st' b2) = contents (heap st) (objs st b1)
     \<and> (\<forall>i. index_const (heap st') (objs st' b2) i = index_const (heap st) (objs st b1) i)"

text \<open>
  An example: from a state with no allocation and every object null and empty, the
  object 0 is constructed with 3 bytes at the address 0, which hold 1, 2 and 3.
\<close>

definition st0 :: state where
  "st0 = \<lparr>heap = (\<lambda>a. None), objs = (\<lambda>x. \<lparr>ptr = None, sz = 0\<rparr>)\<rparr>"

definition ex_state :: state where
  "ex_state = construct st0 0 0 (\<lambda>k. of_nat (Suc k)) 3"

text \<open>
  More examples: the object 2 made a copy of the object 0; a buffer holding 10, 255
  and 16; a buffer of size 0; a stream as \<open>std::cout\<close> starts out; a stream of field width 5
  that fills with \<open>*\<close>.
\<close>

definition ex_shared :: state where
  "ex_shared = copy_construct ex_state 2 0"

definition ex_hex :: state where
  "ex_hex = construct st0 0 0 (\<lambda>k. [10, 255, 16] ! k) 3"

definition ex_empty :: state where
  "ex_empty = construct st0 0 0 (\<lambda>k. 0) 0"

definition ex_sink :: ostream where
  "ex_sink = \<lparr>flags = {Dec, Skipws}, precision = 6, width = 0, fill = CHR '' '', out = []\<rparr>"

definition ex_sink5 :: ostream where
  "ex_sink5 = \<lparr>flags = {Dec, Skipws}, precision = 6, width = 5, fill = CHR ''*'', out = []\<rparr>"

section \<open>The textual form, as specified\<close>

text \<open>
  The form \<open>[b0h,b1h,...,bN-1h]\<close> in the words of the specification: each byte in
  lowercase hexadecimal digits with no fixed width, followed by \<open>h\<close>; commas between the
  elements, none after the last.
\<close>

definition spec_hex :: "u8 \<Rightarrow> string" where
  "spec_hex v =
     (if unat v < 16 then [''0123456789abcdef'' ! unat v]
      else [''0123456789abcdef'' ! (unat v div 16), ''0123456789abcdef'' ! (unat v mod 16)])"

fun spec_elements :: "u8 list \<Rightarrow> string" where
  "spec_elements [] = []"
| "spec_elements [v] = spec_hex v @ ''h''"
| "spec_elements (v # vs) = spec_hex v @ ''h'' @ '','' @ spec_elements vs"

definition spec_format :: "u8 list \<Rightarrow> string" where
  "spec_format bs = ''['' @ spec_elements bs @ '']''"

section \<open>Cursor arithmetic\<close>

lemma unat_inc: "(i::size_t) < n \<Longrightarrow> unat (i + 1) = unat i + 1"
proof -
  assume "i < n"
  then have "unat i < unat n"
    by (simp add: word_less_nat_alt)
  moreover have "unat n < 2 ^ 64"
    using unsigned_less [of n] by simp
  ultimately have "unat i + 1 < 2 ^ 64" by linarith
  then show ?thesis
    by (simp add: unat_word_ariths)
qed

lemma plus_assign_pos:
  "unat (it_i (plus_assign it n)) =
     (if unat (it_i it) + unat n < 2 ^ 64 \<and> unat (it_i it) + unat n \<le> unat (it_sz it)
      then unat (it_i it) + unat n else unat (it_sz it))"
proof (cases "unat (it_i it) + unat n < 2 ^ 64")
  case True
  then have "unat (it_i it + n) = unat (it_i it) + unat n"
    by (simp add: unat_word_ariths)
  then show ?thesis using True
    by (auto simp: plus_assign_def Let_def word_less_nat_alt)
next
  case False
  have "unat n < 2 ^ 64" using unsigned_less [of n] by simp
  have "unat (it_i it) < 2 ^ 64" using unsigned_less [of "it_i it"] by simp
  have "unat (it_i it + n) = unat (it_i it) + unat n - 2 ^ 64"
    using False \<open>unat n < 2 ^ 64\<close> \<open>unat (it_i it) < 2 ^ 64\<close>
    by (simp add: unat_word_ariths mod_if)
  then have "it_i it + n < it_i it"
    using False \<open>unat n < 2 ^ 64\<close> by (simp add: word_less_nat_alt)
  then show ?thesis using False
    by (simp add: plus_assign_def Let_def)
qed

lemma pre_inc_iter:
  "(pre_inc ^^ k) (iterator_ctor bp m 0) =
     \<lparr>base_ptr = bp, it_sz = m, it_i = (if k \<le> unat m then of_nat k else m)\<rparr>"
proof (induction k)
  case 0
  then show ?case by (simp add: iterator_ctor_def)
next
  case (Suc k)
  show ?case
  proof (cases "k < unat m")
    case True
    have "unat m < 2 ^ 64"
      using unsigned_less [of m] by simp
    with True have "unat (of_nat k :: size_t) = k"
      by (simp add: unat_of_nat)
    with True have "(of_nat k :: size_t) < m"
      by (simp add: word_less_nat_alt)
    with True Suc show ?thesis by (simp add: pre_inc_def)
  next
    case False
    then have "(if k \<le> unat m then of_nat k else m) = m"
      by (auto simp: not_less)
    with False Suc show ?thesis by (simp add: pre_inc_def)
  qed
qed

section \<open>Claims about cursors\<close>

text \<open>
  C7. For cursors \<open>a\<close> and \<open>b\<close>, \<open>a - b\<close> is the position of \<open>a\<close> minus the position of \<open>b\<close>
  when \<open>b\<close> is not beyond \<open>a\<close>, and 0 otherwise. So the distance is never negative, and it
  is 0 whenever \<open>a\<close> is at or before \<open>b\<close>. (The cursors need not be over the same buffer.)
\<close>

theorem distance_saturates:
  "uint (distance a b) = (if it_i b \<le> it_i a then uint (it_i a) - uint (it_i b) else 0)
   \<and> 0 \<le> uint (distance a b)
   \<and> (it_i a \<le> it_i b \<longrightarrow> distance a b = 0)"
proof -
  have "uint (distance a b) = (if it_i b \<le> it_i a then uint (it_i a) - uint (it_i b) else 0)"
    by (auto simp: distance_def uint_sub_if' word_le_def word_less_def)
  moreover have "it_i a \<le> it_i b \<longrightarrow> distance a b = 0"
    by (auto simp: distance_def)
  moreover have "0 \<le> uint (distance a b)"
    by simp
  ultimately show ?thesis by blast
qed

theorem distance_saturates_witness:
  "distance \<lparr>base_ptr = Some 0, it_sz = 5, it_i = 4\<rparr> \<lparr>base_ptr = Some 0, it_sz = 5, it_i = 1\<rparr> = 3
   \<and> distance \<lparr>base_ptr = Some 0, it_sz = 5, it_i = 1\<rparr> \<lparr>base_ptr = Some 0, it_sz = 5, it_i = 4\<rparr> = 0"
  using distance_saturates [of "\<lparr>base_ptr = Some 0, it_sz = 5, it_i = 1\<rparr>"
      "\<lparr>base_ptr = Some 0, it_sz = 5, it_i = 4\<rparr>"]
  by (simp add: distance_def)

text \<open>
  C5. \<open>it += n\<close> from position \<open>p\<close> moves the cursor to \<open>p + n\<close> when that sum neither
  passes \<open>2 ^ 64\<close> nor exceeds the size, and to the size otherwise; the base pointer and
  the size stay. When \<open>p + n\<close> exceeds the size, the result is the cursor that the
  constructor builds at the size for the same base and size; for a cursor over a buffer
  \<open>b\<close> whose pointer is not null that is \<open>b.end()\<close>, and \<open>operator==\<close> says so.
\<close>

theorem plus_assign_clamps:
  "unat (it_i (plus_assign it n)) =
     (if unat (it_i it) + unat n < 2 ^ 64 \<and> unat (it_i it) + unat n \<le> unat (it_sz it)
      then unat (it_i it) + unat n else unat (it_sz it))
   \<and> base_ptr (plus_assign it n) = base_ptr it
   \<and> it_sz (plus_assign it n) = it_sz it
   \<and> (unat (it_sz it) < unat (it_i it) + unat n \<longrightarrow>
        plus_assign it n = iterator_ctor (base_ptr it) (it_sz it) (it_sz it)
        \<and> it_eq (plus_assign it n) (iterator_ctor (base_ptr it) (it_sz it) (it_sz it)))
   \<and> (base_ptr it = ptr b \<and> it_sz it = sz b \<and> unat (sz b) < unat (it_i it) + unat n
        \<and> ptr b \<noteq> None \<longrightarrow>
        (\<exists>e. buf_end b = Inr e \<and> it_eq (plus_assign it n) e \<and> plus_assign it n = e))"
proof -
  have frame: "base_ptr (plus_assign it n) = base_ptr it \<and> it_sz (plus_assign it n) = it_sz it"
    by (simp add: plus_assign_def Let_def)
  have "it_i (plus_assign it n) = it_sz it"
    if "unat (it_sz it) < unat (it_i it) + unat n"
  proof -
    from that have "unat (it_i (plus_assign it n)) = unat (it_sz it)"
      by (simp add: plus_assign_pos)
    then show ?thesis by (simp add: word_unat_eq_iff)
  qed
  then have sentinel: "plus_assign it n = iterator_ctor (base_ptr it) (it_sz it) (it_sz it)"
    if "unat (it_sz it) < unat (it_i it) + unat n"
    using that frame by (simp add: iterator_ctor_def)
  then have eq: "it_eq (plus_assign it n) (iterator_ctor (base_ptr it) (it_sz it) (it_sz it))"
    if "unat (it_sz it) < unat (it_i it) + unat n"
    using that by (simp add: it_eq_def)
  have "\<exists>e. buf_end b = Inr e \<and> it_eq (plus_assign it n) e \<and> plus_assign it n = e"
    if "base_ptr it = ptr b" "it_sz it = sz b" "unat (sz b) < unat (it_i it) + unat n"
      "ptr b \<noteq> None"
    using that sentinel eq by (auto simp: buf_end_def)
  with frame sentinel eq plus_assign_pos [of it n] show ?thesis by blast
qed

theorem plus_assign_clamps_witness:
  "plus_assign \<lparr>base_ptr = Some 0, it_sz = 10, it_i = 2\<rparr> 3 = \<lparr>base_ptr = Some 0, it_sz = 10, it_i = 5\<rparr>
   \<and> buf_end \<lparr>ptr = Some 0, sz = 10\<rparr>
        = Inr (plus_assign \<lparr>base_ptr = Some 0, it_sz = 10, it_i = 2\<rparr> 9)
   \<and> buf_end \<lparr>ptr = Some 0, sz = 10\<rparr>
        = Inr (plus_assign \<lparr>base_ptr = Some 0, it_sz = 10, it_i = 2\<rparr> (- 1))"
  using plus_assign_clamps [of "\<lparr>base_ptr = Some 0, it_sz = 10, it_i = 2\<rparr>" 9 "\<lparr>ptr = Some 0, sz = 10\<rparr>"]
  by (simp add: plus_assign_def buf_end_def iterator_ctor_def)

lemma pre_inc_pos:
  "unat (it_i (pre_inc it)) = (if it_i it < it_sz it then unat (it_i it) + 1 else unat (it_i it))"
  by (simp add: pre_inc_def unat_inc)

lemma plus_assign_monotone:
  "it_i it \<le> it_sz it \<Longrightarrow> unat (it_i it) \<le> unat (it_i (plus_assign it n))"
  by (simp add: plus_assign_pos word_le_nat_alt)

text \<open>
  C6. \<open>++it\<close> and \<open>it++\<close> add 1 to the position when it is below the size and leave the
  cursor as it is when the position equals the size; \<open>it++\<close> returns the cursor as it was.
  Neither wraps, and neither has a failing branch. The position never decreases under
  \<open>++\<close>, nor under \<open>+=\<close> for a cursor whose position is within its size. From the cursor
  that the constructor builds at position 0, \<open>k\<close> increments reach position \<open>k\<close> for \<open>k\<close> up
  to the size and stay at the cursor built at the size from then on; for a buffer \<open>b\<close>
  whose pointer is not null these two cursors are \<open>b.begin()\<close> and \<open>b.end()\<close>.
\<close>

theorem advance_saturates:
  "(it_i it < it_sz it \<longrightarrow>
      pre_inc it = it\<lparr>it_i := it_i it + 1\<rparr> \<and> unat (it_i (pre_inc it)) = unat (it_i it) + 1)
   \<and> (it_i it = it_sz it \<longrightarrow> pre_inc it = it)
   \<and> post_inc it = (it, pre_inc it)
   \<and> unat (it_i it) \<le> unat (it_i (pre_inc it))
   \<and> (it_i it \<le> it_sz it \<longrightarrow> unat (it_i it) \<le> unat (it_i (plus_assign it n)))
   \<and> unat (it_i ((pre_inc ^^ k) (iterator_ctor bp m 0))) = min k (unat m)
   \<and> (unat m \<le> k \<longrightarrow> (pre_inc ^^ k) (iterator_ctor bp m 0) = iterator_ctor bp m m)
   \<and> (ptr b \<noteq> None \<longrightarrow>
        (\<exists>it0 e. buf_begin b = Inr it0 \<and> buf_end b = Inr e
           \<and> unat (it_i ((pre_inc ^^ k) it0)) = min k (unat (sz b))
           \<and> (unat (sz b) \<le> k \<longrightarrow> (pre_inc ^^ k) it0 = e)))"
proof -
  have step: "it_i it < it_sz it \<longrightarrow>
      pre_inc it = it\<lparr>it_i := it_i it + 1\<rparr> \<and> unat (it_i (pre_inc it)) = unat (it_i it) + 1"
    by (simp add: pre_inc_pos) (simp add: pre_inc_def)
  have stop: "it_i it = it_sz it \<longrightarrow> pre_inc it = it"
    by (simp add: pre_inc_def)
  have post: "post_inc it = (it, pre_inc it)"
    by (simp add: post_inc_def iterator_copy_def)
  have mono: "unat (it_i it) \<le> unat (it_i (pre_inc it))"
    by (simp add: pre_inc_pos)
  have bulk: "it_i it \<le> it_sz it \<longrightarrow> unat (it_i it) \<le> unat (it_i (plus_assign it n))"
    by (simp add: plus_assign_monotone)
  have visit: "unat (it_i ((pre_inc ^^ k) (iterator_ctor bp m 0))) = min k (unat m)" for bp m
  proof -
    have "unat m < 2 ^ 64"
      using unsigned_less [of m] by simp
    then show ?thesis
      by (simp add: pre_inc_iter unat_of_nat min_def)
  qed
  have settle: "unat m \<le> k \<longrightarrow> (pre_inc ^^ k) (iterator_ctor bp m 0) = iterator_ctor bp m m"
    for bp m
    by (simp add: pre_inc_iter) (auto simp: iterator_ctor_def)
  have buffer: "ptr b \<noteq> None \<longrightarrow>
        (\<exists>it0 e. buf_begin b = Inr it0 \<and> buf_end b = Inr e
           \<and> unat (it_i ((pre_inc ^^ k) it0)) = min k (unat (sz b))
           \<and> (unat (sz b) \<le> k \<longrightarrow> (pre_inc ^^ k) it0 = e))"
    using visit settle by (auto simp: buf_begin_def buf_end_def)
  from step stop post mono bulk visit settle buffer show ?thesis
    by blast
qed

theorem advance_saturates_witness:
  "pre_inc \<lparr>base_ptr = Some 0, it_sz = 2, it_i = 1\<rparr> = \<lparr>base_ptr = Some 0, it_sz = 2, it_i = 2\<rparr>
   \<and> pre_inc \<lparr>base_ptr = Some 0, it_sz = 2, it_i = 2\<rparr> = \<lparr>base_ptr = Some 0, it_sz = 2, it_i = 2\<rparr>
   \<and> unat (it_i (plus_assign \<lparr>base_ptr = Some 0, it_sz = 2, it_i = 1\<rparr> 7)) = 2
   \<and> buf_begin \<lparr>ptr = Some 0, sz = 2\<rparr> = Inr (iterator_ctor (Some 0) 2 0)
   \<and> buf_end \<lparr>ptr = Some 0, sz = 2\<rparr> = Inr ((pre_inc ^^ 2) (iterator_ctor (Some 0) 2 0))"
proof -
  have a: "pre_inc \<lparr>base_ptr = Some 0, it_sz = 2, it_i = 1\<rparr> = \<lparr>base_ptr = Some 0, it_sz = 2, it_i = 2\<rparr>"
    using advance_saturates [of "\<lparr>base_ptr = Some 0, it_sz = 2, it_i = 1\<rparr>"] by simp
  have b: "pre_inc \<lparr>base_ptr = Some 0, it_sz = 2, it_i = 2\<rparr> = \<lparr>base_ptr = Some 0, it_sz = 2, it_i = 2\<rparr>"
    using advance_saturates [of "\<lparr>base_ptr = Some 0, it_sz = 2, it_i = 2\<rparr>"] by simp
  have c: "unat (it_i (plus_assign \<lparr>base_ptr = Some 0, it_sz = 2, it_i = 1\<rparr> 7)) = 2"
    by (simp add: plus_assign_def)
  have d: "buf_begin \<lparr>ptr = Some 0, sz = 2\<rparr> = Inr (iterator_ctor (Some 0) 2 0)"
    by (simp add: buf_begin_def)
  have "(pre_inc ^^ 2) (iterator_ctor (Some 0) 2 0) = iterator_ctor (Some 0) 2 2"
    using advance_saturates [of _ _ 2 "Some 0" 2] by simp
  then have e: "buf_end \<lparr>ptr = Some 0, sz = 2\<rparr>
      = Inr ((pre_inc ^^ 2) (iterator_ctor (Some 0) 2 0))"
    by (simp add: buf_end_def)
  from a b c d e show ?thesis by blast
qed

text \<open>
  The constructor of \<open>iterator_\<close> puts the position within the size, and every operation
  on a cursor keeps it there.
\<close>

lemma cursor_in_range:
  "it_i (iterator_ctor bp n k) = (if n < k then n else k)
   \<and> it_i (iterator_ctor bp n k) \<le> it_sz (iterator_ctor bp n k)
   \<and> (\<forall>c. buf_begin b = Inr c \<or> buf_end b = Inr c \<longrightarrow> it_i c \<le> it_sz c)
   \<and> it_i (to_const it) \<le> it_sz (to_const it)
   \<and> (it_i it \<le> it_sz it \<longrightarrow>
        it_i (iterator_copy it) \<le> it_sz (iterator_copy it)
        \<and> it_i (iterator_assign this it) \<le> it_sz (iterator_assign this it)
        \<and> it_i (pre_inc it) \<le> it_sz (pre_inc it)
        \<and> it_i (fst (post_inc it)) \<le> it_sz (fst (post_inc it))
        \<and> it_i (snd (post_inc it)) \<le> it_sz (snd (post_inc it))
        \<and> it_i (plus_assign it m) \<le> it_sz (plus_assign it m)
        \<and> to_const it = it)"
proof -
  have ctor: "it_i (iterator_ctor bp n k) \<le> it_sz (iterator_ctor bp n k)" for bp n k
    by (simp add: iterator_ctor_def not_less)
  have inc: "it_i (pre_inc it) \<le> it_sz (pre_inc it)" if "it_i it \<le> it_sz it"
    using that by (simp add: pre_inc_def word_le_nat_alt word_less_nat_alt unat_inc)
  have bulk: "it_i (plus_assign it m) \<le> it_sz (plus_assign it m)"
    by (simp add: plus_assign_def Let_def not_less)
  have conv: "to_const it = it" if "it_i it \<le> it_sz it"
    using that by (simp add: to_const_def iterator_ctor_def)
  have ends: "\<forall>c. buf_begin b = Inr c \<or> buf_end b = Inr c \<longrightarrow> it_i c \<le> it_sz c"
    using ctor by (auto simp: buf_begin_def buf_end_def split: option.splits)
  show ?thesis
    using ctor inc bulk conv ends
    by (simp add: to_const_def iterator_copy_def iterator_assign_def post_inc_def)
      (simp add: iterator_ctor_def)
qed

text \<open>
  C4. The position of a cursor is within \<open>[0, size]\<close> from its creation on. In the
  revision whose constructor has an empty body this fails at creation: asked for
  position 5 over 3 bytes, it builds a cursor at position 5, where the constructor of
  \<open>shared_buf.hpp\<close> builds one at position 3.
\<close>

theorem iterator_ctor_rev1_not_clamped:
  "iterator_ctor_rev1 (Some 0) 3 5 = \<lparr>base_ptr = Some 0, it_sz = 3, it_i = 5\<rparr>
   \<and> \<not> it_i (iterator_ctor_rev1 (Some 0) 3 5) \<le> it_sz (iterator_ctor_rev1 (Some 0) 3 5)
   \<and> iterator_ctor (Some 0) 3 5 = \<lparr>base_ptr = Some 0, it_sz = 3, it_i = 3\<rparr>"
  by (simp add: iterator_ctor_rev1_def iterator_ctor_def)

section \<open>Claims about indexing\<close>

text \<open>
  In \<open>shared_buf.hpp\<close> both forms of \<open>operator[]\<close> throw \<open>std::out_of_range\<close> exactly when the
  index is not below the size, and otherwise give byte \<open>i\<close> of the buffer. Neither is
  given the means to change the buffer: they return a value only.
\<close>

lemma load_contents:
  "valid h b \<Longrightarrow> i < sz b \<Longrightarrow> load h (ptr b) (unat i) = Some (contents h b ! unat i)"
  by (auto simp: valid_def load_def contents_def word_less_nat_alt split: option.splits)

lemma index_checked:
  "valid h b \<Longrightarrow>
     (index_ref b i = Inl OutOfRange \<longleftrightarrow> sz b \<le> i)
     \<and> (index_const h b i = Inl OutOfRange \<longleftrightarrow> sz b \<le> i)
     \<and> (i < sz b \<longrightarrow>
          index_ref b i = Inr (ptr b, unat i)
          \<and> index_const h b i = Inr (contents h b ! unat i))"
  by (auto simp: index_ref_def index_const_def load_contents not_less)

text \<open>
  C3. Both forms of \<open>operator[]\<close> fail with \<open>OutOfRange\<close> exactly when the index is not
  below the size, and return byte \<open>i\<close> otherwise. In the revision where the \<open>const\<close> form
  is \<open>return operator[](i);\<close> this fails for the \<open>const\<close> form: for every buffer and every
  index the call does not return, so it neither throws \<open>std::out_of_range\<close> nor yields a
  byte.
\<close>

theorem index_const_rev2_never_returns: "index_const_rev2 h b i = None"
proof (cases "index_const_rev2 h b i")
  case None
  then show ?thesis .
next
  case (Some r)
  have False
    by (rule index_const_rev2.raw_induct [where P = "\<lambda>_ _ _ _. False", OF _ Some]) blast
  then show ?thesis ..
qed

section \<open>Copying\<close>

lemma buf_overwrite: "(x :: shared_buf)\<lparr>ptr := p, sz := n\<rparr> = \<lparr>ptr = p, sz = n\<rparr>"
  by (cases x) simp

lemma buf_eta: "\<lparr>ptr = ptr x, sz = sz x\<rparr> = (x :: shared_buf)"
  by (cases x) simp

lemma copy_construct_result:
  assumes "b2 \<noteq> b1" "ptr (objs st b1) = Some a" "heap st a = Some al"
  shows "copy_construct st b2 b1 =
     st\<lparr>heap := (heap st)(a \<mapsto> al\<lparr>use_count := Suc (use_count al)\<rparr>),
        objs := (objs st)(b2 := objs st b1)\<rparr>"
proof -
  have "copy_construct st b2 b1 =
     st\<lparr>heap := (heap st)(a \<mapsto> al\<lparr>use_count := Suc (use_count al)\<rparr>),
        objs := (objs st)(b2 := \<lparr>ptr = ptr (objs st b1), sz = sz (objs st b1)\<rparr>)\<rparr>"
    using assms
    by (simp add: copy_construct_def sp_copy_construct_def sp_copy_assign_def set_ptr_def
        set_sz_def Let_def acquire_def release_def buf_overwrite)
  then show ?thesis by (simp only: buf_eta)
qed

lemma copy_assign_heap:
  assumes "ptr (objs st b1) = Some a" "heap st a = Some al" "0 < use_count al"
  shows "\<exists>n. heap (copy_assign st b2 b1) a = Some (al\<lparr>use_count := Suc n\<rparr>)"
proof -
  let ?old = "ptr (objs st b2)"
  have h: "heap (copy_assign st b2 b1) =
      release ((heap st)(a \<mapsto> al\<lparr>use_count := Suc (use_count al)\<rparr>)) ?old"
    using assms
    by (simp add: copy_assign_def sp_copy_assign_def set_ptr_def set_sz_def Let_def acquire_def)
  show ?thesis
  proof (cases "?old = Some a")
    case True
    then have "heap (copy_assign st b2 b1) a = Some (al\<lparr>use_count := use_count al\<rparr>)"
      using assms by (simp add: h release_def)
    with assms(3) show ?thesis
      by (metis Suc_pred)
  next
    case False
    then have "heap (copy_assign st b2 b1) a = Some (al\<lparr>use_count := Suc (use_count al)\<rparr>)"
      by (auto simp: h release_def split: option.splits)
    then show ?thesis by blast
  qed
qed

lemma copy_assign_objs:
  "objs (copy_assign st b2 b1) = (objs st)(b2 := objs st b1)"
proof -
  have "objs (copy_assign st b2 b1) =
      (objs st)(b2 := \<lparr>ptr = ptr (objs st b1), sz = sz (objs st b1)\<rparr>)"
    by (simp add: copy_assign_def sp_copy_assign_def set_ptr_def set_sz_def Let_def buf_overwrite)
  then show ?thesis by (simp only: buf_eta)
qed

lemma copy_assign_dom:
  "heap (copy_assign st b2 b1) x \<noteq> None \<Longrightarrow> heap st x \<noteq> None"
  by (auto simp: copy_assign_def sp_copy_assign_def set_ptr_def set_sz_def Let_def
      acquire_def release_def split: option.splits if_splits)

lemma write_seen_shared:
  assumes "objs st w = objs st r" "ptr (objs st r) = Some a" "heap st a = Some al"
    "unat (sz (objs st r)) \<le> length (bytes al)" "i < sz (objs st r)"
  shows "write_seen st w r i v"
proof -
  from assms(4,5) have "unat i < length (bytes al)"
    by (simp add: word_less_nat_alt)
  with assms show ?thesis
    by (simp add: write_seen_def write_index_def index_ref_def store_def read_index_def
        load_def index_const_def)
qed

lemma valid_nonempty:
  assumes "valid h b" "i < sz b"
  obtains a al where "ptr b = Some a" "h a = Some al" "unat (sz b) \<le> length (bytes al)"
    "0 < use_count al"
proof (cases "ptr b")
  case None
  with assms show ?thesis
    by (simp add: valid_def)
next
  case (Some a)
  with assms(1) that show ?thesis
    by (auto simp: valid_def split: option.splits)
qed

text \<open>
  C1. Let \<open>b1\<close> be a valid buffer and \<open>i\<close> an index below its size. After \<open>b2\<close> is made a copy
  of \<open>b1\<close>, by the copy constructor (for a new object \<open>b2\<close>) or by copy assignment (for any
  object \<open>b2\<close>), both hold the same pointer and size, no allocation was made, and after
  \<open>b2[i] = v\<close> reading \<open>b1[i]\<close> yields \<open>v\<close>; likewise from \<open>b1\<close> to \<open>b2\<close>.
\<close>

theorem copy_shares_storage:
  assumes "valid (heap st) (objs st b1)" and "i < sz (objs st b1)"
  shows "(b2 \<noteq> b1 \<longrightarrow> copied st (copy_construct st b2 b1) b2 b1 i v)
    \<and> copied st (copy_assign st b2 b1) b2 b1 i v"
proof -
  from assms obtain a al where a: "ptr (objs st b1) = Some a" "heap st a = Some al"
    "unat (sz (objs st b1)) \<le> length (bytes al)" "0 < use_count al"
    by (rule valid_nonempty)
  have ctor: "copied st (copy_construct st b2 b1) b2 b1 i v" if "b2 \<noteq> b1"
  proof -
    let ?st = "copy_construct st b2 b1"
    have eq: "?st = st\<lparr>heap := (heap st)(a \<mapsto> al\<lparr>use_count := Suc (use_count al)\<rparr>),
        objs := (objs st)(b2 := objs st b1)\<rparr>"
      using that a by (simp add: copy_construct_result)
    have o: "objs ?st b1 = objs st b1" "objs ?st b2 = objs st b1"
      by (simp_all add: eq)
    have h: "heap ?st a = Some (al\<lparr>use_count := Suc (use_count al)\<rparr>)"
      by (simp add: eq)
    have "write_seen ?st b2 b1 i v" "write_seen ?st b1 b2 i v"
      using a assms(2) o h by (auto intro!: write_seen_shared [where a = a])
    moreover have "\<forall>x. heap ?st x \<noteq> None \<longrightarrow> heap st x \<noteq> None"
      using a by (simp add: eq)
    moreover have "contents (heap ?st) (objs ?st b2) = contents (heap st) (objs st b1)"
      using a h o by (simp add: contents_def)
    ultimately show ?thesis
      using o by (simp add: copied_def)
  qed
  have asg: "copied st (copy_assign st b2 b1) b2 b1 i v"
  proof -
    let ?st = "copy_assign st b2 b1"
    have o: "objs ?st b1 = objs st b1" "objs ?st b2 = objs st b1"
      by (simp_all add: copy_assign_objs)
    obtain n where h: "heap ?st a = Some (al\<lparr>use_count := Suc n\<rparr>)"
      using copy_assign_heap [OF a(1,2,4)] by blast
    have "write_seen ?st b2 b1 i v" "write_seen ?st b1 b2 i v"
      using a assms(2) o h by (auto intro!: write_seen_shared [where a = a])
    moreover have "\<forall>x. heap ?st x \<noteq> None \<longrightarrow> heap st x \<noteq> None"
      using copy_assign_dom by blast
    moreover have "contents (heap ?st) (objs ?st b2) = contents (heap st) (objs st b1)"
      using a h o by (simp add: contents_def)
    ultimately show ?thesis
      using o by (simp add: copied_def)
  qed
  from ctor asg show ?thesis by blast
qed

text \<open>The example state, written out.\<close>

lemma ex_state_eq:
  "ex_state = \<lparr>heap = (\<lambda>a. None)(0 \<mapsto> \<lparr>bytes = [1, 2, 3], use_count = 1\<rparr>),
               objs = (\<lambda>x. \<lparr>ptr = None, sz = 0\<rparr>)(0 := \<lparr>ptr = Some 0, sz = 3\<rparr>)\<rparr>"
  by (simp add: ex_state_def construct_def st0_def upt_rec)

lemma ex_state_valid: "valid (heap ex_state) (objs ex_state 0)"
  by (simp add: ex_state_eq valid_def)

theorem copy_shares_storage_witness:
  "valid (heap ex_state) (objs ex_state 0) \<and> 1 < sz (objs ex_state 0)
   \<and> write_seen (copy_construct ex_state 2 0) 2 0 1 9
   \<and> write_seen (copy_assign ex_state 2 0) 0 2 1 9
   \<and> ptr (objs (copy_construct ex_state 2 0) 2) = Some 0
   \<and> read_index ex_state 0 1 = Inr 2"
proof -
  have l: "1 < sz (objs ex_state 0)"
    by (simp add: ex_state_eq)
  have r: "read_index ex_state 0 1 = Inr 2"
    by (simp add: ex_state_eq read_index_def index_ref_def load_def)
  have p: "ptr (objs ex_state 0) = Some 0"
    by (simp add: ex_state_eq)
  from copy_shares_storage [OF ex_state_valid l, of 2 9] ex_state_valid l r p show ?thesis
    by (simp add: copied_def)
qed

section \<open>Printing: what is written\<close>

lemma digits_byte:
  assumes "n < 256"
  shows "digits 16 False n =
     (if n < 16 then [digit_char False n]
      else [digit_char False (n div 16), digit_char False (n mod 16)])"
proof (cases "n < 16")
  case True
  then show ?thesis
    by (subst digits.simps) simp
next
  case False
  from assms have "n div 16 < 16" by simp
  then have "digits 16 False (n div 16) = [digit_char False (n div 16)]"
    by (subst digits.simps) simp
  with False show ?thesis
    by (subst digits.simps) simp
qed

lemma digits_u8: "digits 16 False (unat (v :: u8)) = spec_hex v"
proof -
  have "unat v < 256"
    using unsigned_less [of v] by simp
  then have "digits 16 False (unat v) =
     (if unat v < 16 then [digit_char False (unat v)]
      else [digit_char False (unat v div 16), digit_char False (unat v mod 16)])"
    by (rule digits_byte)
  then show ?thesis
    by (simp only: spec_hex_def digit_char_def if_False)
qed

lemma uint_u8_mod: "nat (uint (v :: u8) mod 4294967296) = unat v"
proof -
  have "uint v < 2 ^ 8"
    using uint_bounded [of v] by simp
  then have "uint v < 4294967296" by simp
  then have "uint v mod 4294967296 = uint v" by simp
  then show ?thesis by simp
qed

lemma put_char_plain:
  "put_char (t\<lparr>flags := {Hex}, width := 0, out := w\<rparr>) c =
     t\<lparr>flags := {Hex}, width := 0, out := w @ [c]\<rparr>"
  by (simp add: put_char_def adjust_left_def padding_def)

lemma put_int_plain:
  "put_int (t\<lparr>flags := {Hex}, width := 0, out := w\<rparr>) (uint (v :: u8)) =
     t\<lparr>flags := {Hex}, width := 0, out := w @ spec_hex v\<rparr>"
  by (simp add: put_int_def Let_def adjust_left_def adjust_internal_def padding_def uint_u8_mod
      digits_u8)


lemma valid_length: "valid h b \<Longrightarrow> length (contents h b) = unat (sz b)"
  by (auto simp: valid_def contents_def split: option.splits)

lemma print_loop_tail:
  assumes "valid h b"
  shows "i \<noteq> 0 \<Longrightarrow>
     print_loop h b i (t\<lparr>flags := {Hex}, width := 0, out := w\<rparr>) =
       Inr (t\<lparr>flags := {Hex}, width := 0,
              out := w @ concat (map (\<lambda>v. '','' @ spec_hex v @ ''h'')
                                  (drop (unat i) (contents h b)))\<rparr>)"
proof (induction "unat (sz b) - unat i" arbitrary: i w)
  case 0
  then have "\<not> i < sz b"
    by (simp add: word_less_nat_alt)
  moreover from 0 have "drop (unat i) (contents h b) = []"
    using assms by (simp add: valid_length)
  ultimately show ?case
    by (subst print_loop.simps) simp
next
  case (Suc n)
  then have lt: "i < sz b"
    by (simp add: word_less_nat_alt)
  then have inc: "unat (i + 1) = unat i + 1"
    by (rule unat_inc)
  then have nz: "i + 1 \<noteq> 0"
    by (metis add_is_0 unat_0 zero_neq_one)
  from Suc inc have n: "n = unat (sz b) - unat (i + 1)"
    by simp
  from lt assms have "unat i < length (contents h b)"
    by (simp add: valid_length word_less_nat_alt)
  then have dr: "drop (unat i) (contents h b) =
      contents h b ! unat i # drop (unat (i + 1)) (contents h b)"
    by (simp add: Cons_nth_drop_Suc inc)
  show ?case
    using lt Suc.prems
    by (subst print_loop.simps)
      (simp add: load_contents [OF assms lt] put_char_plain put_int_plain Suc.hyps(1) [OF n nz] dr)
qed

lemma spec_elements_Cons:
  "spec_elements (v # vs) =
     spec_hex v @ ''h'' @ concat (map (\<lambda>v. '','' @ spec_hex v @ ''h'') vs)"
  by (induction vs arbitrary: v) simp_all

lemma print_loop_all:
  assumes "valid h b"
  shows "print_loop h b 0 (t\<lparr>flags := {Hex}, width := 0, out := w\<rparr>) =
     Inr (t\<lparr>flags := {Hex}, width := 0, out := w @ spec_elements (contents h b)\<rparr>)"
proof (cases "0 < sz b")
  case False
  then have "unat (sz b) = 0"
    by (simp add: word_less_nat_alt)
  with assms have "contents h b = []"
    using valid_length by fastforce
  with False show ?thesis
    by (subst print_loop.simps) simp
next
  case True
  then have "unat (0 + 1 :: size_t) = 1"
    by simp
  from True assms have "0 < length (contents h b)"
    by (simp add: valid_length word_less_nat_alt)
  then have dr: "contents h b = contents h b ! 0 # drop 1 (contents h b)"
    by (cases "contents h b") simp_all
  have "spec_elements (contents h b) =
      spec_hex (contents h b ! 0) @ ''h'' @
      concat (map (\<lambda>v. '','' @ spec_hex v @ ''h'') (drop 1 (contents h b)))"
    by (subst dr) (rule spec_elements_Cons)
  moreover have "print_loop h b 0 (t\<lparr>flags := {Hex}, width := 0, out := w\<rparr>) =
      print_loop h b 1
        (t\<lparr>flags := {Hex}, width := 0, out := w @ spec_hex (contents h b ! 0) @ ''h''\<rparr>)"
    using True load_contents [OF assms True]
    by (subst print_loop.simps) (simp add: put_char_plain put_int_plain)
  ultimately show ?thesis
    by (simp add: print_loop_tail [OF assms])
qed

lemma print_result:
  assumes "valid h b"
  shows "print h b s =
     Inr (s\<lparr>width := 0,
            out := out s @ replicate (nat (width s - 1)) (fill s) @ spec_format (contents h b)\<rparr>)"
proof -
  have "hex_manip (put_char (resetiosflags s (flags s)) CHR ''['') =
      s\<lparr>flags := {Hex}, width := 0,
        out := out s @ replicate (nat (width s - 1)) (fill s) @ ''[''\<rparr>"
    by (simp add: hex_manip_def put_char_def resetiosflags_def adjust_left_def padding_def)
  then show ?thesis
    by (simp add: print_def Let_def print_loop_all [OF assms] put_char_plain set_flags_def
        spec_format_def)
qed

section \<open>Moving\<close>

lemma move_construct_result:
  "b2 \<noteq> b1 \<Longrightarrow>
     move_construct st b2 b1 =
       st\<lparr>objs := (objs st)(b1 := \<lparr>ptr = None, sz = 0\<rparr>, b2 := objs st b1)\<rparr>"
proof -
  assume "b2 \<noteq> b1"
  then have "move_construct st b2 b1 =
      st\<lparr>objs := (objs st)(b1 := \<lparr>ptr = None, sz = 0\<rparr>,
                             b2 := \<lparr>ptr = ptr (objs st b1), sz = sz (objs st b1)\<rparr>)\<rparr>"
    by (simp add: move_construct_def sp_move_construct_def set_ptr_def set_sz_def Let_def
        buf_overwrite fun_upd_twist)
  then show ?thesis by (simp only: buf_eta)
qed

lemma move_assign_result:
  "b2 \<noteq> b1 \<Longrightarrow>
     move_assign st b2 b1 =
       st\<lparr>heap := release (heap st) (ptr (objs st b2)),
          objs := (objs st)(b1 := \<lparr>ptr = None, sz = 0\<rparr>, b2 := objs st b1)\<rparr>"
proof -
  assume "b2 \<noteq> b1"
  then have "move_assign st b2 b1 =
      st\<lparr>heap := release (heap st) (ptr (objs st b2)),
         objs := (objs st)(b1 := \<lparr>ptr = None, sz = 0\<rparr>,
                             b2 := \<lparr>ptr = ptr (objs st b1), sz = sz (objs st b1)\<rparr>)\<rparr>"
    by (simp add: move_assign_def sp_move_assign_def set_ptr_def set_sz_def Let_def
        buf_overwrite fun_upd_twist)
  then show ?thesis by (simp only: buf_eta)
qed

lemma release_counted:
  assumes "counted st [b2, b1]" "b2 \<noteq> b1" "ptr (objs st b1) = Some a" "heap st a = Some al"
  shows "\<exists>n. release (heap st) (ptr (objs st b2)) a = Some (al\<lparr>use_count := Suc n\<rparr>)"
proof (cases "ptr (objs st b2) = Some a")
  case True
  with assms have "2 \<le> use_count al"
    by (simp add: counted_def owners_def)
  then have "use_count al - 1 = Suc (use_count al - 2)" "\<not> use_count al \<le> 1"
    by simp_all
  with True assms(4) show ?thesis
    by (auto simp: release_def)
next
  case False
  from assms have "1 \<le> use_count al"
    by (auto simp: counted_def owners_def split: option.splits if_splits)
  then have "al = al\<lparr>use_count := Suc (use_count al - 1)\<rparr>"
    by simp
  moreover from False assms(4) have "release (heap st) (ptr (objs st b2)) a = Some al"
    by (auto simp: release_def split: option.splits)
  ultimately show ?thesis
    by metis
qed

lemma moved_intro:
  assumes e: "objs st' b1 = \<lparr>ptr = None, sz = 0\<rparr>"
    and t: "objs st' b2 = objs st b1"
    and v: "valid (heap st) (objs st b1)"
    and h: "\<And>a al. ptr (objs st b1) = Some a \<Longrightarrow> heap st a = Some al \<Longrightarrow>
              \<exists>n. heap st' a = Some (al\<lparr>use_count := Suc n\<rparr>)"
  shows "moved st st' b2 b1 s"
proof -
  have ev: "valid (heap st') (objs st' b1)"
    by (simp add: e valid_def)
  have ec: "contents (heap st') (objs st' b1) = []"
    by (simp add: e contents_def)
  have pr: "print (heap st') (objs st' b1) s =
      Inr (s\<lparr>width := 0, out := out s @ replicate (nat (width s - 1)) (fill s) @ ''[]''\<rparr>)"
    by (simp add: print_result [OF ev] ec spec_format_def)
  have ld: "load (heap st') (ptr (objs st b1)) k = load (heap st) (ptr (objs st b1)) k" for k
  proof (cases "ptr (objs st b1)")
    case None
    then show ?thesis by (simp add: load_def)
  next
    case (Some a)
    with v obtain al where al: "heap st a = Some al"
      by (auto simp: valid_def split: option.splits)
    from h [OF Some al] obtain n where "heap st' a = Some (al\<lparr>use_count := Suc n\<rparr>)" ..
    with Some al show ?thesis by (simp add: load_def)
  qed
  have tv: "valid (heap st') (objs st' b2)"
  proof (cases "ptr (objs st b1)")
    case None
    with v show ?thesis by (simp add: t valid_def)
  next
    case (Some a)
    with v obtain al where al: "heap st a = Some al" "unat (sz (objs st b1)) \<le> length (bytes al)"
      by (auto simp: valid_def split: option.splits)
    from h [OF Some al(1)] obtain n where "heap st' a = Some (al\<lparr>use_count := Suc n\<rparr>)" ..
    with Some al show ?thesis by (simp add: t valid_def)
  qed
  have tc: "contents (heap st') (objs st' b2) = contents (heap st) (objs st b1)"
  proof (cases "ptr (objs st b1)")
    case None
    then show ?thesis by (simp add: t contents_def)
  next
    case (Some a)
    with v obtain al where al: "heap st a = Some al"
      by (auto simp: valid_def split: option.splits)
    from h [OF Some al] obtain n where "heap st' a = Some (al\<lparr>use_count := Suc n\<rparr>)" ..
    with Some al show ?thesis by (simp add: t contents_def)
  qed
  have ti: "index_const (heap st') (objs st' b2) i = index_const (heap st) (objs st b1) i" for i
    by (simp add: t index_const_def ld)
  show ?thesis
    unfolding moved_def
    using pr tv tc ti
    by (simp add: e [symmetric] t) (simp add: e size_buf_def index_ref_def index_const_def)
qed

text \<open>
  C2. Let \<open>b1\<close> be a valid buffer and \<open>b2\<close> another object. After \<open>b1\<close> is moved into \<open>b2\<close>, by
  the move constructor (for a new object \<open>b2\<close>) or by move assignment (for a buffer \<open>b2\<close>,
  where the use counts cover \<open>b2\<close> and \<open>b1\<close>), \<open>b1\<close> has size 0 and a null pointer, every
  index into it fails with \<open>OutOfRange\<close>, and on any stream it prints as \<open>[]\<close>, after
  \<open>width - 1\<close> fill characters when the field width of the stream is above 1; \<open>b2\<close> has the
  size and the bytes that \<open>b1\<close> had.
\<close>

theorem move_empties_source:
  assumes "valid (heap st) (objs st b1)" and "b2 \<noteq> b1"
  shows "moved st (move_construct st b2 b1) b2 b1 s
    \<and> (counted st [b2, b1] \<longrightarrow> moved st (move_assign st b2 b1) b2 b1 s)"
proof -
  have "moved st (move_construct st b2 b1) b2 b1 s"
  proof (rule moved_intro [OF _ _ assms(1)])
    show "objs (move_construct st b2 b1) b1 = \<lparr>ptr = None, sz = 0\<rparr>"
      using assms(2) by (simp add: move_construct_result)
    show "objs (move_construct st b2 b1) b2 = objs st b1"
      using assms(2) by (simp add: move_construct_result)
    show "\<exists>n. heap (move_construct st b2 b1) a = Some (al\<lparr>use_count := Suc n\<rparr>)"
      if "ptr (objs st b1) = Some a" "heap st a = Some al" for a al
    proof -
      from assms(1) that have "0 < use_count al"
        by (simp add: valid_def)
      then have "al = al\<lparr>use_count := Suc (use_count al - 1)\<rparr>"
        by simp
      moreover have "heap (move_construct st b2 b1) = heap st"
        using assms(2) by (simp add: move_construct_result)
      ultimately show ?thesis
        using that(2) by metis
    qed
  qed
  moreover have "moved st (move_assign st b2 b1) b2 b1 s" if c: "counted st [b2, b1]"
  proof (rule moved_intro [OF _ _ assms(1)])
    show "objs (move_assign st b2 b1) b1 = \<lparr>ptr = None, sz = 0\<rparr>"
      using assms(2) by (simp add: move_assign_result)
    show "objs (move_assign st b2 b1) b2 = objs st b1"
      using assms(2) by (simp add: move_assign_result)
    show "\<exists>n. heap (move_assign st b2 b1) a = Some (al\<lparr>use_count := Suc n\<rparr>)"
      if "ptr (objs st b1) = Some a" "heap st a = Some al" for a al
      using release_counted [OF c assms(2) that] assms(2) by (simp add: move_assign_result)
  qed
  ultimately show ?thesis by blast
qed

lemma ex_shared_eq:
  "ex_shared = \<lparr>heap = (\<lambda>a. None)(0 \<mapsto> \<lparr>bytes = [1, 2, 3], use_count = 2\<rparr>),
     objs = (\<lambda>x. \<lparr>ptr = None, sz = 0\<rparr>)
              (0 := \<lparr>ptr = Some 0, sz = 3\<rparr>, 2 := \<lparr>ptr = Some 0, sz = 3\<rparr>)\<rparr>"
  by (simp add: ex_shared_def ex_state_eq copy_construct_def sp_copy_construct_def
      sp_copy_assign_def set_ptr_def set_sz_def Let_def acquire_def release_def
      eval_nat_numeral)

theorem move_empties_source_witness:
  "valid (heap ex_shared) (objs ex_shared 0) \<and> counted ex_shared [2, 0]
   \<and> moved ex_shared (move_construct ex_shared 3 0) 3 0 ex_sink
   \<and> moved ex_shared (move_assign ex_shared 2 0) 2 0 ex_sink
   \<and> objs (move_assign ex_shared 2 0) 0 = \<lparr>ptr = None, sz = 0\<rparr>
   \<and> contents (heap (move_assign ex_shared 2 0)) (objs (move_assign ex_shared 2 0) 2) = [1, 2, 3]
   \<and> print (heap (move_assign ex_shared 2 0)) (objs (move_assign ex_shared 2 0) 0) ex_sink
       = Inr (ex_sink\<lparr>out := ''[]''\<rparr>)"
proof -
  have v: "valid (heap ex_shared) (objs ex_shared 0)"
    by (simp add: ex_shared_eq valid_def)
  have c: "counted ex_shared [2, 0]"
    by (simp add: ex_shared_eq counted_def owners_def)
  have c3: "(3::nat) \<noteq> 0" and c2: "(2::nat) \<noteq> 0"
    by simp_all
  have m3: "moved ex_shared (move_construct ex_shared 3 0) 3 0 ex_sink"
    using move_empties_source [OF v c3] by blast
  have m2: "moved ex_shared (move_assign ex_shared 2 0) 2 0 ex_sink"
    using move_empties_source [OF v c2] c by blast
  have o: "objs (move_assign ex_shared 2 0) 0 = \<lparr>ptr = None, sz = 0\<rparr>"
    by (simp add: move_assign_result)
  have "contents (heap ex_shared) (objs ex_shared 0) = [1, 2, 3]"
    by (simp add: ex_shared_eq contents_def)
  with m2 have k: "contents (heap (move_assign ex_shared 2 0)) (objs (move_assign ex_shared 2 0) 2)
      = [1, 2, 3]"
    by (simp add: moved_def)
  have "replicate (nat (width ex_sink - 1)) (fill ex_sink) = []"
    by (simp add: ex_sink_def)
  with m2 have p: "print (heap (move_assign ex_shared 2 0)) (objs (move_assign ex_shared 2 0) 0)
      ex_sink = Inr (ex_sink\<lparr>out := ''[]''\<rparr>)"
    by (simp add: moved_def) (simp add: ex_sink_def)
  from v c m3 m2 o k p show ?thesis by blast
qed

text \<open>
  In the example, the object 0 is moved into the object 2, which shares its allocation,
  and into the new object 3. Printed to a stream of field width 5 that fills with \<open>*\<close>,
  the emptied object 0 gives \<open>****[]\<close>, not \<open>[]\<close>. Its \<open>begin()\<close> evaluates \<open>&ptr[0]\<close> on a
  null pointer, so a loop over it has no defined result.
\<close>

theorem move_empties_source_counterexample:
  "print (heap (move_assign ex_shared 2 0)) (objs (move_assign ex_shared 2 0) 0) ex_sink5
     = Inr \<lparr>flags = {Dec, Skipws}, precision = 6, width = 0, fill = CHR ''*'',
             out = ''****[]''\<rparr>
   \<and> print (heap (move_construct ex_shared 3 0)) (objs (move_construct ex_shared 3 0) 0) ex_sink5
     = Inr \<lparr>flags = {Dec, Skipws}, precision = 6, width = 0, fill = CHR ''*'',
             out = ''****[]''\<rparr>
   \<and> buf_begin (objs (move_assign ex_shared 2 0) 0) = Inl Undefined
   \<and> range_for (heap (move_assign ex_shared 2 0)) (objs (move_assign ex_shared 2 0) 0)
     = Some (Inl Undefined)
   \<and> range_for (heap (move_construct ex_shared 3 0)) (objs (move_construct ex_shared 3 0) 0)
     = Some (Inl Undefined)"
  by code_simp

lemma self_move_assign_result: "move_assign st b b = set_sz st b 0"
  by (simp add: move_assign_def sp_move_assign_def set_ptr_def set_sz_def Let_def release_def)

text \<open>
  C10. Move-assigning a buffer from itself is to leave it empty: size 0, no storage
  reference, its reference to the allocation dropped. The code sets the size to 0 and
  leaves the pointer in place. The buffer of the example, move-assigned from itself, has
  size 0 and still owns its allocation of 3 bytes, whose use count is still 1; its size
  no longer matches its allocation. The move constructor and the move assignment from
  another object leave their source with a null pointer and size 0.
\<close>

theorem self_move_assign_keeps_allocation:
  "ptr (objs ex_state 0) = Some 0
   \<and> heap ex_state 0 = Some \<lparr>bytes = [1, 2, 3], use_count = 1\<rparr>
   \<and> sz (objs (move_assign ex_state 0 0) 0) = 0
   \<and> ptr (objs (move_assign ex_state 0 0) 0) = Some 0
   \<and> ptr (objs (move_assign ex_state 0 0) 0) \<noteq> None
   \<and> heap (move_assign ex_state 0 0) 0 = Some \<lparr>bytes = [1, 2, 3], use_count = 1\<rparr>
   \<and> objs (move_construct ex_state 2 0) 0 = \<lparr>ptr = None, sz = 0\<rparr>
   \<and> objs (move_assign ex_shared 2 0) 0 = \<lparr>ptr = None, sz = 0\<rparr>"
  by code_simp

section \<open>Claims about printing\<close>

text \<open>
  C8. For a valid buffer, \<open>print\<close> writes the form \<open>[b0h,b1h,...,bN-1h]\<close> of the
  specification, after \<open>width - 1\<close> fill characters when the field width of the stream is
  above 1. So on a stream of field width at most 1 (0 is the width of a stream unless
  the caller sets one) it writes exactly that form, and a buffer of size 0 is written
  as \<open>[]\<close>.
\<close>

theorem print_format:
  assumes "valid h b"
  shows "print h b s =
      Inr (s\<lparr>width := 0,
             out := out s @ replicate (nat (width s - 1)) (fill s) @ spec_format (contents h b)\<rparr>)
    \<and> (width s \<le> 1 \<longrightarrow>
         print h b s = Inr (s\<lparr>width := 0, out := out s @ spec_format (contents h b)\<rparr>))
    \<and> (width s \<le> 1 \<and> sz b = 0 \<longrightarrow>
         print h b s = Inr (s\<lparr>width := 0, out := out s @ ''[]''\<rparr>))"
proof -
  have p: "print h b s =
      Inr (s\<lparr>width := 0,
             out := out s @ replicate (nat (width s - 1)) (fill s) @ spec_format (contents h b)\<rparr>)"
    by (rule print_result [OF assms])
  have "contents h b = []" if "sz b = 0"
    using that by (simp add: contents_def split: option.splits)
  with p show ?thesis
    by (auto simp: spec_format_def)
qed

lemma ex_contents: "contents (heap ex_state) (objs ex_state 0) = [1, 2, 3]"
  by (simp add: ex_state_eq contents_def)

theorem print_format_witness:
  "valid (heap ex_state) (objs ex_state 0) \<and> width ex_sink \<le> 1
   \<and> print (heap ex_state) (objs ex_state 0) ex_sink = Inr (ex_sink\<lparr>out := ''[1h,2h,3h]''\<rparr>)
   \<and> print (heap ex_hex) (objs ex_hex 0) ex_sink = Inr (ex_sink\<lparr>out := ''[ah,ffh,10h]''\<rparr>)
   \<and> print (heap ex_empty) (objs ex_empty 0) ex_sink = Inr (ex_sink\<lparr>out := ''[]''\<rparr>)"
proof -
  have w: "width ex_sink \<le> 1"
    by (simp add: ex_sink_def)
  have a: "print (heap ex_state) (objs ex_state 0) ex_sink = Inr (ex_sink\<lparr>out := ''[1h,2h,3h]''\<rparr>)"
    using print_format [OF ex_state_valid, of ex_sink] w
    by (simp add: ex_contents spec_format_def spec_hex_def) (simp add: ex_sink_def)
  have hv: "valid (heap ex_hex) (objs ex_hex 0)"
    by (simp add: ex_hex_def construct_def st0_def valid_def)
  have hc: "contents (heap ex_hex) (objs ex_hex 0) = [10, 255, 16]"
    by (simp add: ex_hex_def construct_def st0_def contents_def upt_rec)
  have b: "print (heap ex_hex) (objs ex_hex 0) ex_sink = Inr (ex_sink\<lparr>out := ''[ah,ffh,10h]''\<rparr>)"
    using print_format [OF hv, of ex_sink] w
    by (simp add: hc spec_format_def spec_hex_def) (simp add: ex_sink_def)
  have ev: "valid (heap ex_empty) (objs ex_empty 0)"
    by (simp add: ex_empty_def construct_def st0_def valid_def)
  have ec: "contents (heap ex_empty) (objs ex_empty 0) = []"
    by (simp add: ex_empty_def construct_def st0_def contents_def)
  have c: "print (heap ex_empty) (objs ex_empty 0) ex_sink = Inr (ex_sink\<lparr>out := ''[]''\<rparr>)"
    using print_format [OF ev, of ex_sink] w
    by (simp add: ec spec_format_def) (simp add: ex_sink_def)
  from ex_state_valid w a b c show ?thesis by blast
qed

text \<open>
  On a stream of field width 5 that fills with \<open>*\<close>, the buffer holding 10, 255 and 16 is
  written as \<open>****[ah,ffh,10h]\<close>, which is not the form \<open>[ah,ffh,10h]\<close>.
\<close>

theorem print_format_counterexample:
  "print (heap ex_hex) (objs ex_hex 0) ex_sink5
     = Inr \<lparr>flags = {Dec, Skipws}, precision = 6, width = 0, fill = CHR ''*'',
             out = ''****[ah,ffh,10h]''\<rparr>
   \<and> spec_format (contents (heap ex_hex) (objs ex_hex 0)) = ''[ah,ffh,10h]''
   \<and> out ex_sink5 = []"
  by code_simp

text \<open>
  C9. For a valid buffer and any stream, \<open>print\<close> leaves the flags, the precision and the
  fill character of the stream as they were, and the field width at 0. It writes the
  specified form, preceded by \<open>width - 1\<close> fill characters when the width was above 1. So two
  streams are written the same text when both have a width of at most 1, or the same
  width and fill character, whatever their flags and precision.
\<close>

theorem print_restores_flags:
  assumes "valid h b"
  shows "\<exists>s' t'. print h b s = Inr s' \<and> print h b t = Inr t'
    \<and> flags s' = flags s \<and> precision s' = precision s \<and> fill s' = fill s
    \<and> width s' = 0
    \<and> out s' = out s @ replicate (nat (width s - 1)) (fill s) @ spec_format (contents h b)
    \<and> ((width s \<le> 1 \<and> width t \<le> 1) \<or> (width s = width t \<and> fill s = fill t) \<longrightarrow>
         drop (length (out t)) (out t') = drop (length (out s)) (out s'))"
proof -
  let ?s = "s\<lparr>width := 0,
      out := out s @ replicate (nat (width s - 1)) (fill s) @ spec_format (contents h b)\<rparr>"
  let ?t = "t\<lparr>width := 0,
      out := out t @ replicate (nat (width t - 1)) (fill t) @ spec_format (contents h b)\<rparr>"
  have "print h b s = Inr ?s" "print h b t = Inr ?t"
    by (simp_all add: print_result [OF assms])
  moreover have "(width s \<le> 1 \<and> width t \<le> 1) \<or> (width s = width t \<and> fill s = fill t) \<longrightarrow>
      drop (length (out t)) (out ?t) = drop (length (out s)) (out ?s)"
    by auto
  ultimately show ?thesis
    by (intro exI [of _ ?s] exI [of _ ?t]) simp
qed

lemma replicate4: "replicate 4 c = [c, c, c, c]"
  by (simp add: numeral_eq_Suc)

lemma ex_format: "spec_format [1, 2, 3] = ''[1h,2h,3h]''"
  by (simp add: spec_format_def spec_hex_def)

theorem print_restores_flags_witness:
  "valid (heap ex_state) (objs ex_state 0)
   \<and> print (heap ex_state) (objs ex_state 0) ex_sink5
       = Inr \<lparr>flags = {Dec, Skipws}, precision = 6, width = 0, fill = CHR ''*'',
               out = ''****[1h,2h,3h]''\<rparr>"
proof -
  from print_restores_flags [OF ex_state_valid, of ex_sink5 ex_sink5]
  obtain s' where "print (heap ex_state) (objs ex_state 0) ex_sink5 = Inr s'"
    "flags s' = flags ex_sink5" "precision s' = precision ex_sink5" "fill s' = fill ex_sink5"
    "width s' = 0"
    "out s' = out ex_sink5 @ replicate (nat (width ex_sink5 - 1)) (fill ex_sink5) @
      spec_format (contents (heap ex_state) (objs ex_state 0))"
    by blast
  then have "print (heap ex_state) (objs ex_state 0) ex_sink5
       = Inr \<lparr>flags = {Dec, Skipws}, precision = 6, width = 0, fill = CHR ''*'',
               out = ''****[1h,2h,3h]''\<rparr>"
    by (cases s') (simp add: ex_sink5_def ex_contents ex_format replicate4)
  with ex_state_valid show ?thesis by blast
qed

text \<open>
  On a stream of field width 5 the width is 0 after \<open>print\<close>, and the text differs from
  the text written to a stream of width 0.
\<close>

theorem print_changes_width_counterexample:
  "print (heap ex_state) (objs ex_state 0)
     \<lparr>flags = {Dec, Skipws}, precision = 6, width = 5, fill = CHR ''*'', out = []\<rparr>
     = Inr \<lparr>flags = {Dec, Skipws}, precision = 6, width = 0, fill = CHR ''*'',
             out = ''****[1h,2h,3h]''\<rparr>
   \<and> print (heap ex_state) (objs ex_state 0)
     \<lparr>flags = {Dec, Skipws}, precision = 6, width = 0, fill = CHR ''*'', out = []\<rparr>
     = Inr \<lparr>flags = {Dec, Skipws}, precision = 6, width = 0, fill = CHR ''*'',
             out = ''[1h,2h,3h]''\<rparr>"
  by code_simp

end
